theory Spec2Isabelle
  imports Main "HOL-Library.AList"
begin

section \<open>JavaScript values\<close>

text \<open>
  The scheduler service is written against untyped objects (\<open>post: any\<close>). The values
  that flow through it are modelled by a small universe of JavaScript values; numbers
  are restricted to integers, which is all the scheduler ever handles.
\<close>

datatype jsval =
    JUndefined
  | JNull
  | JBool bool
  | JNum int
  | JStr string
  | JArr "jsval list"
  | JObj "(string \<times> jsval) list"

text \<open>ToBoolean, as used by \<open>||\<close> and \<open>if\<close>.\<close>

fun truthy :: "jsval \<Rightarrow> bool" where
  "truthy JUndefined = False"
| "truthy JNull = False"
| "truthy (JBool b) = b"
| "truthy (JNum n) = (n \<noteq> 0)"
| "truthy (JStr s) = (s \<noteq> [])"
| "truthy (JArr xs) = True"
| "truthy (JObj kvs) = True"

fun nullish :: "jsval \<Rightarrow> bool" where
  "nullish JUndefined = True"
| "nullish JNull = True"
| "nullish v = False"

text \<open>\<open>a || b\<close> and \<open>a ?? b\<close>.\<close>

definition js_or :: "jsval \<Rightarrow> jsval \<Rightarrow> jsval" where
  "js_or a b = (if truthy a then a else b)"

definition js_coalesce :: "jsval \<Rightarrow> jsval \<Rightarrow> jsval" where
  "js_coalesce a b = (if nullish a then b else a)"

text \<open>
  An object whose set of properties matters (a payload, an override object, the
  \<open>externalIds\<close> of a post) is a finite map from property names to values. Reading a
  missing property gives \<open>undefined\<close>.
\<close>

type_synonym jsobject = "string \<rightharpoonup> jsval"

definition getProp :: "jsobject \<Rightarrow> string \<Rightarrow> jsval" where
  "getProp obj k = (case obj k of None \<Rightarrow> JUndefined | Some v \<Rightarrow> v)"

text \<open>\<open>Number.prototype.toString\<close> on an integer: decimal digits, a leading minus sign.\<close>

fun digits :: "nat \<Rightarrow> string" where
  "digits n = (if n < 10 then [''0123456789'' ! n]
               else digits (n div 10) @ [''0123456789'' ! (n mod 10)])"

declare digits.simps [simp del]

definition toString :: "int \<Rightarrow> string" where
  "toString i = (if i < 0 then CHR ''-'' # digits (nat (- i)) else digits (nat i))"

section \<open>The post entity\<close>

record media_item =
  url :: jsval

record publish_error =
  err_platform :: "string option"
  err_error :: jsval

text \<open>
  The fields of a social post that the scheduler reads or patches. \<open>media\<close> and
  \<open>externalIds\<close> may be missing (\<open>None\<close> stands for \<open>undefined\<close> or \<open>null\<close>);
  \<open>platformSpecific\<close> maps a platform name to its override object, a platform without
  overrides (or a post without \<open>platformSpecific\<close>) being \<open>None\<close>; \<open>scheduledAt\<close>
  is an instant in milliseconds since the epoch.
\<close>

record post =
  post_id :: int
  title :: jsval
  content :: jsval
  platforms :: "string list"
  media :: "media_item list option"
  hashtags :: jsval
  platformSpecific :: "string \<rightharpoonup> jsobject"
  externalIds :: "jsobject option"
  status :: string
  scheduledAt :: int
  timezone :: "string option"
  publishedAt :: "int option"
  publishErrors :: "publish_error list"

section \<open>Post formatter\<close>

text \<open>\<open>post.media?.map((m) => m.url) || []\<close>\<close>

definition mediaUrls :: "post \<Rightarrow> jsval" where
  "mediaUrls p = (case media p of None \<Rightarrow> JArr [] | Some ms \<Rightarrow> JArr (map url ms))"

text \<open>\<open>post.media?.[0]?.url || ''\<close>\<close>

definition firstMediaUrl :: "post \<Rightarrow> jsval" where
  "firstMediaUrl p =
     (case media p of
        None \<Rightarrow> JStr []
      | Some [] \<Rightarrow> JStr []
      | Some (m # ms) \<Rightarrow> js_or (url m) (JStr []))"

text \<open>
  \<open>formatPostForPlatform\<close>. The object spread \<open>{a: x, b: y, ...o}\<close> is the map
  \<open>[a \<mapsto> x, b \<mapsto> y] ++ o\<close>: the properties of \<open>o\<close> win.
\<close>

definition formatPostForPlatform :: "post \<Rightarrow> string \<Rightarrow> jsobject" where
  "formatPostForPlatform p platform =
     (let specific = (case platformSpecific p platform of None \<Rightarrow> Map.empty | Some o' \<Rightarrow> o') in
      if platform = ''facebook'' \<or> platform = ''instagram'' then
        [''message'' \<mapsto> content p, ''media'' \<mapsto> mediaUrls p] ++ specific
      else if platform = ''twitter'' then
        [''text'' \<mapsto> content p,
         ''media'' \<mapsto> mediaUrls p,
         ''threadMode'' \<mapsto> js_or (getProp specific ''threadMode'') (JBool False),
         ''threadPosts'' \<mapsto> js_or (getProp specific ''threadPosts'') (JArr [])]
      else if platform = ''linkedin'' then
        [''text'' \<mapsto> content p,
         ''media'' \<mapsto> mediaUrls p,
         ''visibility'' \<mapsto> js_or (getProp specific ''visibility'') (JStr ''PUBLIC'')]
      else if platform = ''youtube'' then
        [''title'' \<mapsto> js_or (getProp specific ''title'') (title p),
         ''description'' \<mapsto> js_or (getProp specific ''description'') (content p),
         ''videoUrl'' \<mapsto> firstMediaUrl p,
         ''category'' \<mapsto> getProp specific ''category'',
         ''privacy'' \<mapsto> js_or (getProp specific ''privacy'') (JStr ''public''),
         ''tags'' \<mapsto> js_or (getProp specific ''tags'') (js_or (hashtags p) (JArr []))]
      else if platform = ''tiktok'' then
        [''videoUrl'' \<mapsto> firstMediaUrl p,
         ''caption'' \<mapsto> content p,
         ''privacy'' \<mapsto> js_or (getProp specific ''privacy'') (JStr ''PUBLIC''),
         ''allowComment'' \<mapsto> js_coalesce (getProp specific ''allowComments'') (JBool True),
         ''allowDuet'' \<mapsto> js_coalesce (getProp specific ''allowDuet'') (JBool True),
         ''allowStitch'' \<mapsto> js_coalesce (getProp specific ''allowStitch'') (JBool True)]
      else Map.empty)"

section \<open>External collaborators\<close>

text \<open>
  What a platform publisher returns: \<open>{success, postId?, videoId?, error?}\<close>.
\<close>

record pub_result =
  success :: bool
  postId :: jsval
  videoId :: jsval
  error :: jsval

text \<open>
  A call that may throw returns \<open>Inl\<close> of the error message, or \<open>Inr\<close> of its value.

  The environment of one scheduler operation: the reading of the clock, the platform
  publishers (addressed by service name and method name, as in
  \<open>strapi.plugin('social-media-connector').service(name).method(payload)\<close>), and the two
  library functions the scheduler relies on: \<open>utcToZonedTime\<close> of date-fns-tz followed by
  the four getters the scheduler reads, and \<open>cron.validate\<close> of node-cron.
\<close>

record zoned =
  getMinutes :: int
  getHours :: int
  getDate :: int
  getMonth :: int

record env =
  now :: int
  connector :: "string \<Rightarrow> string \<Rightarrow> jsobject \<Rightarrow> string + pub_result"
  utcToZonedTime :: "int \<Rightarrow> string \<Rightarrow> zoned"
  validate :: "string \<Rightarrow> bool"

datatype log_entry =
    LogPublishing int
  | LogScheduled int int
  | LogUnscheduled int
  | LogError string string

text \<open>
  The Post Store (the entity service of the framework) holds the posts by id. Every
  call of \<open>findOne\<close> or \<open>update\<close> can throw on its own, whatever became of the calls
  before it: \<open>outages\<close> lists, for the store calls to come and in their order, whether
  the store refuses the call (calls beyond the end of the list are answered), and
  \<open>available\<close> is false for a store that refuses every call. A call, answered or
  refused, uses up the head of the list (\<open>served\<close>). \<open>findOne\<close> returns the post or
  \<open>null\<close>; \<open>update\<close> patches the fields given and leaves a missing id alone (it returns
  \<open>null\<close> there). Next to the store the world records the lines written to
  \<open>strapi.log\<close> (by template and arguments) and the calls made to the platform
  publishers.
\<close>

record world =
  posts :: "int \<rightharpoonup> post"
  available :: bool
  outages :: "bool list"
  logged :: "log_entry list"
  calls :: "(string \<times> string \<times> jsobject) list"

definition storeUnavailable :: string where
  "storeUnavailable = ''Post Store unavailable''"

text \<open>Whether the store answers the next call, and the world once that call is over.\<close>

definition answered :: "world \<Rightarrow> bool" where
  "answered w \<longleftrightarrow>
     available w \<and> (case outages w of [] \<Rightarrow> True | refused # later \<Rightarrow> \<not> refused)"

definition served :: "world \<Rightarrow> world" where
  "served w = w\<lparr>outages := tl (outages w)\<rparr>"

text \<open>
  \<open>findOne\<close> gives the answer of the store; the caller goes on in the world \<open>served w\<close>.
  \<open>update\<close> gives the world after an answered call; after a refused one the caller
  goes on in \<open>served w\<close>.
\<close>

definition findOne :: "world \<Rightarrow> int \<Rightarrow> string + post option" where
  "findOne w i = (if answered w then Inr (posts w i) else Inl storeUnavailable)"

definition update :: "world \<Rightarrow> int \<Rightarrow> (post \<Rightarrow> post) \<Rightarrow> string + world" where
  "update w i patch =
     (if answered w then
        (case posts w i of
           None \<Rightarrow> Inr (served w)
         | Some p \<Rightarrow> Inr ((served w)\<lparr>posts := (posts w)(i \<mapsto> patch p)\<rparr>))
      else Inl storeUnavailable)"

definition log_info :: "log_entry \<Rightarrow> world \<Rightarrow> world" where
  "log_info e w = w\<lparr>logged := logged w @ [e]\<rparr>"

section \<open>Publish orchestrator\<close>

text \<open>
  The \<open>switch (platform)\<close> of \<open>publishPost\<close>: which service and method a platform name
  is sent to. A name outside the six cases matches none, and \<open>result\<close> stays undefined.
\<close>

definition route :: "string \<Rightarrow> (string \<times> string) option" where
  "route platform =
     (if platform = ''facebook'' then Some (''facebook'', ''publishPost'')
      else if platform = ''instagram'' then Some (''facebook'', ''publishPost'')
      else if platform = ''twitter'' then Some (''twitter'', ''publishPost'')
      else if platform = ''linkedin'' then Some (''linkedin'', ''publishPost'')
      else if platform = ''youtube'' then Some (''youtube'', ''uploadVideo'')
      else if platform = ''tiktok'' then Some (''tiktok'', ''uploadVideo'')
      else None)"

text \<open>The message of the TypeError thrown by \<open>result.success\<close> on an undefined \<open>result\<close>.\<close>

definition undefinedSuccess :: string where
  "undefinedSuccess = ''Cannot read properties of undefined (reading 'success')''"

text \<open>
  The state of the fan-out loop: the post object loaded at the start (the loop mutates
  its \<open>externalIds\<close> object in place when it has one), the two accumulators and the world.
\<close>

record fanout =
  loaded :: post
  results :: "pub_result list"
  errors :: "publish_error list"
  outside :: world

definition push_error :: "string \<Rightarrow> jsval \<Rightarrow> fanout \<Rightarrow> fanout" where
  "push_error platform e st =
     st\<lparr>errors := errors st @ [\<lparr>err_platform = Some platform, err_error = e\<rparr>]\<rparr>"

text \<open>The inner \<open>catch\<close>: log, then push \<open>{platform, error: error.message}\<close>.\<close>

definition caught :: "string \<Rightarrow> string \<Rightarrow> fanout \<Rightarrow> fanout" where
  "caught platform msg st =
     push_error platform (JStr msg)
       (st\<lparr>outside := log_info (LogError (''Error publishing to '' @ platform @ '':'') msg) (outside st)\<rparr>)"

text \<open>One iteration of \<open>for (const platform of post.platforms)\<close>.\<close>

definition publishTo :: "env \<Rightarrow> int \<Rightarrow> fanout \<Rightarrow> string \<Rightarrow> fanout" where
  "publishTo e pid st platform =
     (case route platform of
        None \<Rightarrow> caught platform undefinedSuccess st
      | Some (service, method) \<Rightarrow>
          (let payload = formatPostForPlatform (loaded st) platform;
               st1 = st\<lparr>outside := (outside st)\<lparr>calls := calls (outside st) @ [(service, method, payload)]\<rparr>\<rparr>
           in case connector e service method payload of
                Inl msg \<Rightarrow> caught platform msg st1
              | Inr result \<Rightarrow>
                  if success result then
                    (let st2 = st1\<lparr>results := results st1 @ [result]\<rparr>;
                         ids = (case externalIds (loaded st2) of None \<Rightarrow> Map.empty | Some m \<Rightarrow> m);
                         ids' = ids(platform \<mapsto> js_or (postId result) (videoId result));
                         st3 = (case externalIds (loaded st2) of
                                  None \<Rightarrow> st2
                                | Some m \<Rightarrow> st2\<lparr>loaded := (loaded st2)\<lparr>externalIds := Some ids'\<rparr>\<rparr>)
                     in case update (outside st3) pid (\<lambda>p. p\<lparr>externalIds := Some ids'\<rparr>) of
                          Inl msg \<Rightarrow> caught platform msg (st3\<lparr>outside := served (outside st3)\<rparr>)
                        | Inr w \<Rightarrow> st3\<lparr>outside := w\<rparr>)
                  else push_error platform (error result) st1))"

definition finalStatus :: "pub_result list \<Rightarrow> publish_error list \<Rightarrow> string" where
  "finalStatus rs es =
     (if length es = 0 then ''published''
      else if length rs = 0 then ''failed'' else ''published'')"

text \<open>What \<open>publishPost\<close> resolves with: the aggregate of the fan-out, or the failure
  object built by the outer \<open>catch\<close>.\<close>

datatype publish_return =
    Aggregate bool "pub_result list" "publish_error list" int
  | Failure string int

fun ret_success :: "publish_return \<Rightarrow> bool" where
  "ret_success (Aggregate ok rs es i) = ok"
| "ret_success (Failure msg i) = False"

text \<open>The body of the outer \<open>try\<close>; \<open>Inl\<close> is an exception on its way to the \<open>catch\<close>.\<close>

definition publishBody :: "env \<Rightarrow> int \<Rightarrow> world \<Rightarrow> (string + publish_return) \<times> world" where
  "publishBody e pid w0 =
     (let w = log_info (LogPublishing pid) w0 in
      case findOne w pid of
        Inl msg \<Rightarrow> (Inl msg, served w)
      | Inr None \<Rightarrow> (Inl ''Post not found'', served w)
      | Inr (Some p) \<Rightarrow>
          (let st = foldl (publishTo e pid)
                      \<lparr>loaded = p, results = [], errors = [], outside = served w\<rparr>
                      (platforms p)
           in case update (outside st) pid
                     (\<lambda>q. q\<lparr>status := finalStatus (results st) (errors st),
                            publishedAt := Some (now e),
                            publishErrors := errors st\<rparr>) of
                Inl msg \<Rightarrow> (Inl msg, served (outside st))
              | Inr w' \<Rightarrow>
                  (Inr (Aggregate (length (errors st) = 0) (results st) (errors st) pid), w')))"

text \<open>
  \<open>publishPost\<close>: the body, and the outer \<open>catch\<close>, which logs, marks the post failed and
  returns the failure object. The \<open>update\<close> of the handler is itself a store call: when
  it throws, the promise returned by \<open>publishPost\<close> rejects (\<open>Inl\<close>).
\<close>

definition publishPost :: "env \<Rightarrow> int \<Rightarrow> world \<Rightarrow> (string + publish_return) \<times> world" where
  "publishPost e pid w0 =
     (case publishBody e pid w0 of
        (Inr r, w) \<Rightarrow> (Inr r, w)
      | (Inl msg, w) \<Rightarrow>
          (let w1 = log_info (LogError ''Error publishing post:'' msg) w in
           case update w1 pid
                  (\<lambda>q. q\<lparr>status := ''failed'',
                         publishErrors := [\<lparr>err_platform = None, err_error = JStr msg\<rparr>]\<rparr>) of
             Inl msg' \<Rightarrow> (Inl msg', served w1)
           | Inr w2 \<Rightarrow> (Inr (Failure msg pid), w2)))"

section \<open>Scheduler\<close>

text \<open>
  A task registered with node-cron by \<open>cron.schedule(expression, callback, {scheduled:
  true, timezone})\<close>. The callback of the scheduler closes over \<open>post.id\<close> only, so the
  task keeps that id (\<open>target\<close>). \<open>running\<close> is what \<open>task.stop()\<close> clears: node-cron
  calls the callback of a running task each time the wall clock of the task's zone
  matches its expression, and never calls the callback of a stopped one. The handle
  \<open>cron.schedule\<close> returns is the position of the task in the registry.
\<close>

record cron_task =
  expression :: string
  zone :: string
  target :: int
  running :: bool

record ScheduledJob =
  job_id :: string
  task :: nat
  job_postId :: int
  job_scheduledAt :: int

text \<open>
  The service object: the Job Table (a JavaScript \<open>Map\<close>, which keeps insertion order,
  hence an association list), the registry of node-cron and the world around it.
\<close>

record scheduler =
  jobs :: "(string \<times> ScheduledJob) list"
  tasks :: "cron_task list"
  strapi :: world

text \<open>
  What the scheduler operations resolve with: nothing (\<open>return;\<close>),
  \<open>{success: true, postId, scheduledAt, cronExpression}\<close>, \<open>{success: true}\<close> or
  \<open>{success: false, error}\<close>.
\<close>

datatype outcome =
    Undefined
  | Scheduled int int string
  | Succeeded
  | Failed string

text \<open>The template \<open>`${minute} ${hour} ${day} ${month} *`\<close>, with \<open>month = getMonth() + 1\<close>.\<close>

definition cronExpression :: "zoned \<Rightarrow> string" where
  "cronExpression z =
     toString (getMinutes z) @ '' '' @ toString (getHours z) @ '' '' @
     toString (getDate z) @ '' '' @ toString (getMonth z + 1) @ '' *''"

text \<open>\<open>post.timezone || 'UTC'\<close>\<close>

definition timezoneOf :: "post \<Rightarrow> string" where
  "timezoneOf p = (case timezone p of None \<Rightarrow> ''UTC'' | Some z \<Rightarrow> if z = [] then ''UTC'' else z)"

definition schedulingFailed :: "string \<Rightarrow> world \<Rightarrow> world" where
  "schedulingFailed msg w = log_info (LogError ''Error scheduling post:'' msg) w"

definition schedulePost :: "env \<Rightarrow> post \<Rightarrow> scheduler \<Rightarrow> outcome \<times> scheduler" where
  "schedulePost e p s =
     (if scheduledAt p \<le> now e then
        (case publishPost e (post_id p) (strapi s) of
           (Inr r, w) \<Rightarrow> (Undefined, s\<lparr>strapi := w\<rparr>)
         | (Inl msg, w) \<Rightarrow> (Failed msg, s\<lparr>strapi := schedulingFailed msg w\<rparr>))
      else
        (let tz = timezoneOf p;
             zonedTime = utcToZonedTime e (scheduledAt p) tz;
             expr = cronExpression zonedTime
         in if \<not> validate e expr then
              (let msg = ''Invalid cron expression: '' @ expr
               in (Failed msg, s\<lparr>strapi := schedulingFailed msg (strapi s)\<rparr>))
            else
              (let handle = length (tasks s);
                   key = toString (post_id p);
                   s1 = s\<lparr>tasks := tasks s @
                          [\<lparr>expression = expr, zone = tz, target = post_id p, running = True\<rparr>]\<rparr>;
                   s2 = s1\<lparr>jobs := AList.update key
                          \<lparr>job_id = key, task = handle, job_postId = post_id p,
                           job_scheduledAt = scheduledAt p\<rparr> (jobs s1)\<rparr>;
                   s3 = s2\<lparr>strapi := log_info (LogScheduled (post_id p) (scheduledAt p)) (strapi s2)\<rparr>
               in (Scheduled (post_id p) (scheduledAt p) expr, s3))))"

text \<open>
  The callback handed to \<open>cron.schedule\<close>, run by node-cron when task \<open>h\<close> fires:
  \<open>await this.publishPost(post.id); this.jobs.delete(post.id.toString())\<close>. When
  \<open>publishPost\<close> rejects, the callback rejects before the \<open>delete\<close>. A stopped or unknown
  task does not fire.
\<close>

definition fire :: "env \<Rightarrow> nat \<Rightarrow> scheduler \<Rightarrow> scheduler" where
  "fire e h s =
     (if h < length (tasks s) \<and> running (tasks s ! h) then
        (let pid = target (tasks s ! h) in
         case publishPost e pid (strapi s) of
           (Inr r, w) \<Rightarrow> s\<lparr>strapi := w, jobs := AList.delete (toString pid) (jobs s)\<rparr>
         | (Inl msg, w) \<Rightarrow> s\<lparr>strapi := w\<rparr>)
      else s)"

text \<open>\<open>task.stop()\<close>\<close>

definition stop :: "nat \<Rightarrow> cron_task list \<Rightarrow> cron_task list" where
  "stop h ts = (if h < length ts then ts[h := (ts ! h)\<lparr>running := False\<rparr>] else ts)"

definition unschedulePost :: "int \<Rightarrow> scheduler \<Rightarrow> outcome \<times> scheduler" where
  "unschedulePost pid s =
     (let jobId = toString pid in
      case map_of (jobs s) jobId of
        Some job \<Rightarrow>
          (Succeeded,
           s\<lparr>tasks := stop (task job) (tasks s),
             jobs := AList.delete jobId (jobs s),
             strapi := log_info (LogUnscheduled pid) (strapi s)\<rparr>)
      | None \<Rightarrow> (Failed ''Job not found'', s))"

definition reschedulingFailed :: "string \<Rightarrow> scheduler \<Rightarrow> outcome \<times> scheduler" where
  "reschedulingFailed msg s =
     (Failed msg, s\<lparr>strapi := log_info (LogError ''Error rescheduling post:'' msg) (strapi s)\<rparr>)"

definition reschedulePost :: "env \<Rightarrow> int \<Rightarrow> int \<Rightarrow> scheduler \<Rightarrow> outcome \<times> scheduler" where
  "reschedulePost e pid newScheduledAt s0 =
     (let s = snd (unschedulePost pid s0);
          s1 = s\<lparr>strapi := served (strapi s)\<rparr>
      in case findOne (strapi s) pid of
           Inl msg \<Rightarrow> reschedulingFailed msg s1
         | Inr None \<Rightarrow> reschedulingFailed ''Post not found'' s1
         | Inr (Some p) \<Rightarrow>
             (case update (strapi s1) pid (\<lambda>q. q\<lparr>scheduledAt := newScheduledAt\<rparr>) of
                Inl msg \<Rightarrow> reschedulingFailed msg (s1\<lparr>strapi := served (strapi s1)\<rparr>)
              | Inr w \<Rightarrow>
                  schedulePost e (p\<lparr>scheduledAt := newScheduledAt\<rparr>) (s1\<lparr>strapi := w\<rparr>)))"

definition getScheduledJobs :: "scheduler \<Rightarrow> (int \<times> int) list" where
  "getScheduledJobs s = map (\<lambda>(k, job). (job_postId job, job_scheduledAt job)) (jobs s)"

text \<open>
  The service as created: an empty Job Table, nothing registered with node-cron.
\<close>

definition created :: "world \<Rightarrow> scheduler" where
  "created w = \<lparr>jobs = [], tasks = [], strapi = w\<rparr>"

section \<open>Vocabulary of the properties\<close>

text \<open>
  What one platform comes to for a post: the result of its publisher when that reports
  success (\<open>Inr\<close>), and otherwise the error recorded for it (\<open>Inl\<close>): the error field of
  an unsuccessful result, the message of an exception thrown by the publisher, or the
  TypeError raised for a platform name that the \<open>switch\<close> does not handle.
\<close>

definition outcomeOf :: "env \<Rightarrow> post \<Rightarrow> string \<Rightarrow> jsval + pub_result" where
  "outcomeOf e p platform =
     (case route platform of
        None \<Rightarrow> Inl (JStr undefinedSuccess)
      | Some (service, method) \<Rightarrow>
          (case connector e service method (formatPostForPlatform p platform) of
             Inl msg \<Rightarrow> Inl (JStr msg)
           | Inr r \<Rightarrow> if success r then Inr r else Inl (error r)))"

text \<open>The platforms of a post that succeeded, and those that did not, in the post's order.\<close>

definition successes :: "env \<Rightarrow> post \<Rightarrow> pub_result list" where
  "successes e p =
     concat (map (\<lambda>pf. case outcomeOf e p pf of Inr r \<Rightarrow> [r] | Inl x \<Rightarrow> []) (platforms p))"

definition failures :: "env \<Rightarrow> post \<Rightarrow> publish_error list" where
  "failures e p =
     concat (map (\<lambda>pf. case outcomeOf e p pf of
                          Inr r \<Rightarrow> []
                        | Inl x \<Rightarrow> [\<lparr>err_platform = Some pf, err_error = x\<rparr>]) (platforms p))"

text \<open>A store that answers every call to come.\<close>

definition steadfast :: "world \<Rightarrow> bool" where
  "steadfast w \<longleftrightarrow> available w \<and> True \<notin> set (outages w)"

text \<open>
  The invariant of the fan-out over a steadfast store that holds the post: the store
  stays steadfast and keeps the post, and the loaded object differs from the post as
  loaded in its \<open>externalIds\<close> at most.
\<close>

definition steady :: "post \<Rightarrow> int \<Rightarrow> fanout \<Rightarrow> bool" where
  "steady p pid st \<longleftrightarrow>
     steadfast (outside st) \<and> posts (outside st) pid \<noteq> None \<and>
     loaded st = p\<lparr>externalIds := externalIds (loaded st)\<rparr>"

text \<open>The six platform names that the \<open>switch\<close> of \<open>publishPost\<close> handles.\<close>

definition handled :: "string list" where
  "handled = [''facebook'', ''instagram'', ''twitter'', ''linkedin'', ''youtube'', ''tiktok'']"

text \<open>
  \<open>publishPost\<close> writes \<open>Publishing scheduled post <id>\<close> to the log as its first step,
  and nothing else writes that line: the ids on these lines, in order, are the
  invocations of the orchestrator.
\<close>

fun publishingOf :: "log_entry \<Rightarrow> int list" where
  "publishingOf (LogPublishing i) = [i]"
| "publishingOf other = []"

definition invocations :: "world \<Rightarrow> int list" where
  "invocations w = concat (map publishingOf (logged w))"

text \<open>The fields of a cron expression: the pieces between its spaces.\<close>

fun fields :: "string \<Rightarrow> string list" where
  "fields [] = [[]]"
| "fields (c # cs) =
     (if c = CHR '' '' then [] # fields cs
      else (case fields cs of [] \<Rightarrow> [[c]] | f # fs \<Rightarrow> (c # f) # fs))"

text \<open>
  The Job Table as \<open>schedulePost\<close> fills it: every entry sits under the string form of
  its \<open>postId\<close> and holds a handle that node-cron gave out.
\<close>

definition keyed :: "scheduler \<Rightarrow> bool" where
  "keyed s \<longleftrightarrow>
     (\<forall>(k, job) \<in> set (jobs s). k = toString (job_postId job) \<and> task job < length (tasks s))"

text \<open>
  The payload as the specification describes it: the computed default fields of each
  platform, taken from the specification's table of payloads (\<open>category\<close> of youtube,
  which the table calls optional, is an undefined property), and the override object
  \<open>post.platformSpecific[platform]\<close> that is to be merged over them.
\<close>

definition computedDefaults :: "post \<Rightarrow> string \<Rightarrow> jsobject" where
  "computedDefaults p platform =
     (if platform = ''facebook'' \<or> platform = ''instagram'' then
        [''message'' \<mapsto> content p, ''media'' \<mapsto> mediaUrls p]
      else if platform = ''twitter'' then
        [''text'' \<mapsto> content p, ''media'' \<mapsto> mediaUrls p,
         ''threadMode'' \<mapsto> JBool False, ''threadPosts'' \<mapsto> JArr []]
      else if platform = ''linkedin'' then
        [''text'' \<mapsto> content p, ''media'' \<mapsto> mediaUrls p,
         ''visibility'' \<mapsto> JStr ''PUBLIC'']
      else if platform = ''youtube'' then
        [''title'' \<mapsto> title p, ''description'' \<mapsto> content p,
         ''videoUrl'' \<mapsto> firstMediaUrl p, ''category'' \<mapsto> JUndefined,
         ''privacy'' \<mapsto> JStr ''public'', ''tags'' \<mapsto> js_or (hashtags p) (JArr [])]
      else if platform = ''tiktok'' then
        [''videoUrl'' \<mapsto> firstMediaUrl p, ''caption'' \<mapsto> content p,
         ''privacy'' \<mapsto> JStr ''PUBLIC'', ''allowComment'' \<mapsto> JBool True,
         ''allowDuet'' \<mapsto> JBool True, ''allowStitch'' \<mapsto> JBool True]
      else Map.empty)"

definition overridesOf :: "post \<Rightarrow> string \<Rightarrow> jsobject" where
  "overridesOf p platform =
     (case platformSpecific p platform of None \<Rightarrow> Map.empty | Some o' \<Rightarrow> o')"

text \<open>The properties of an object whose value is truthy, and those whose value is
  neither \<open>undefined\<close> nor \<open>null\<close>.\<close>

definition truthyOnly :: "jsobject \<Rightarrow> jsobject" where
  "truthyOnly m =
     (\<lambda>k. case m k of None \<Rightarrow> None | Some v \<Rightarrow> if truthy v then Some v else None)"

definition definedOnly :: "jsobject \<Rightarrow> jsobject" where
  "definedOnly m =
     (\<lambda>k. case m k of None \<Rightarrow> None | Some v \<Rightarrow> if nullish v then None else Some v)"

text \<open>
  The live triggers of a post: the handles of the running tasks of node-cron whose
  callback publishes the post.
\<close>

definition liveTriggers :: "int \<Rightarrow> scheduler \<Rightarrow> nat set" where
  "liveTriggers pid s =
     set (filter (\<lambda>h. running (tasks s ! h) \<and> target (tasks s ! h) = pid)
            [0..<length (tasks s)])"

section \<open>Fixtures\<close>

text \<open>
  The fixtures of the unit tests of the service: a post for facebook and twitter, a store
  that holds it, a facebook publisher that succeeds with \<open>fb_123\<close> and other publishers
  that report \<open>rate limited\<close>. The clock library of the fixture knows UTC and a New York
  that is five hours behind it, and turns an instant into calendar fields with the
  usual days-to-civil computation; its \<open>validate\<close> accepts every expression.
\<close>

definition civil :: "int \<Rightarrow> zoned" where
  "civil ms =
     (let days = ms div 86400000;
          rest = ms mod 86400000;
          z = days + 719468;
          doe = z mod 146097;
          yoe = (doe - doe div 1460 + doe div 36524 - doe div 146096) div 365;
          doy = doe - (365 * yoe + yoe div 4 - yoe div 100);
          mp = (5 * doy + 2) div 153;
          d = doy - (153 * mp + 2) div 5 + 1;
          m = (if mp < 10 then mp + 3 else mp - 9)
      in \<lparr>getMinutes = (rest mod 3600000) div 60000,
          getHours = rest div 3600000,
          getDate = d,
          getMonth = m - 1\<rparr>)"

definition fixedOffsetZones :: "int \<Rightarrow> string \<Rightarrow> zoned" where
  "fixedOffsetZones ms tz =
     (if tz = ''America/New_York'' then civil (ms - 18000000) else civil ms)"

definition mockPost :: post where
  "mockPost =
     \<lparr>post_id = 1, title = JStr ''Test Post'', content = JStr ''Test content'',
      platforms = [''facebook'', ''twitter''], media = Some [], hashtags = JUndefined,
      platformSpecific = Map.empty, externalIds = Some Map.empty, status = ''scheduled'',
      scheduledAt = 1768529100000, timezone = Some ''America/New_York'',
      publishedAt = None, publishErrors = []\<rparr>"

definition fbResult :: pub_result where
  "fbResult = \<lparr>success = True, postId = JStr ''fb_123'', videoId = JUndefined, error = JUndefined\<rparr>"

definition twResult :: pub_result where
  "twResult = \<lparr>success = False, postId = JUndefined, videoId = JUndefined,
               error = JStr ''rate limited''\<rparr>"

definition mockEnv :: env where
  "mockEnv =
     \<lparr>now = 1768392000000,
      connector = (\<lambda>service method payload.
                     if service = ''facebook'' then Inr fbResult else Inr twResult),
      utcToZonedTime = fixedOffsetZones,
      validate = (\<lambda>expr. True)\<rparr>"

definition mockStrapi :: world where
  "mockStrapi =
     \<lparr>posts = [1 \<mapsto> mockPost], available = True, outages = [], logged = [], calls = []\<rparr>"


text \<open>
  The fixture post without platforms, a store that holds it, and that store when it
  refuses the second call made to it, which in \<open>publishPost\<close> is the final write.
\<close>

definition barePost :: post where
  "barePost = mockPost\<lparr>platforms := []\<rparr>"

definition bareStrapi :: world where
  "bareStrapi = mockStrapi\<lparr>posts := [1 \<mapsto> barePost]\<rparr>"

definition flakyBareStrapi :: world where
  "flakyBareStrapi = bareStrapi\<lparr>outages := [False, True]\<rparr>"

text \<open>
  The scheduler after \<open>schedulePost\<close> of the fixture post, due in New York on 15 January
  2026 at 21:05; after its task has fired at that instant; and after the task has fired
  once more a year later, when the wall clock of New York shows 15 January, 21:05 again.
\<close>

definition scheduledOnce :: scheduler where
  "scheduledOnce = snd (schedulePost mockEnv mockPost (created mockStrapi))"

definition firedOnce :: scheduler where
  "firedOnce = fire (mockEnv\<lparr>now := 1768529100000\<rparr>) 0 scheduledOnce"

definition firedTwice :: scheduler where
  "firedTwice = fire (mockEnv\<lparr>now := 1800065100000\<rparr>) 0 firedOnce"

text \<open>The same post handed to \<open>schedulePost\<close> a second time, now due a day later; and
  the post moved to that day with \<open>reschedulePost\<close> instead.\<close>

definition scheduledTwice :: scheduler where
  "scheduledTwice =
     snd (schedulePost mockEnv (mockPost\<lparr>scheduledAt := 1768615500000\<rparr>) scheduledOnce)"

definition rescheduled :: scheduler where
  "rescheduled = snd (reschedulePost mockEnv 1 1768615500000 scheduledOnce)"

text \<open>The fixture post with overrides for twitter.\<close>

definition overriddenTweet :: post where
  "overriddenTweet =
     mockPost\<lparr>platformSpecific :=
       [''twitter'' \<mapsto> [''text'' \<mapsto> JStr ''override'', ''threadMode'' \<mapsto> JBool True]]\<rparr>"

section \<open>The fan-out over a steadfast store\<close>

lemma answered_frame [simp]:
  "answered (w\<lparr>posts := a\<rparr>) = answered w"
  "answered (w\<lparr>logged := b\<rparr>) = answered w"
  "answered (w\<lparr>calls := c\<rparr>) = answered w"
  "answered (log_info x w) = answered w"
  by (simp_all add: answered_def log_info_def)

lemma steadfast_frame [simp]:
  "steadfast (w\<lparr>posts := a\<rparr>) = steadfast w"
  "steadfast (w\<lparr>logged := b\<rparr>) = steadfast w"
  "steadfast (w\<lparr>calls := c\<rparr>) = steadfast w"
  "steadfast (log_info x w) = steadfast w"
  by (simp_all add: steadfast_def log_info_def)

lemma served_frame [simp]:
  "posts (served w) = posts w"
  "logged (served w) = logged w"
  "calls (served w) = calls w"
  "available (served w) = available w"
  "answered (served (log_info x w)) = answered (served w)"
  "steadfast (served (log_info x w)) = steadfast (served w)"
  by (simp_all add: served_def log_info_def answered_def steadfast_def)

lemma log_info_frame [simp]:
  "posts (log_info x w) = posts w"
  "calls (log_info x w) = calls w"
  "available (log_info x w) = available w"
  by (simp_all add: log_info_def)

lemma unavailable_refuses: "\<not> available w \<Longrightarrow> \<not> answered w"
  by (simp add: answered_def)

lemma steadfast_answered: "steadfast w \<Longrightarrow> answered w"
  by (auto simp: steadfast_def answered_def split: list.splits)

lemma steadfast_served: "steadfast w \<Longrightarrow> steadfast (served w)"
  by (cases "outages w") (auto simp: steadfast_def served_def)

text \<open>An \<open>update\<close> that a steadfast store answers.\<close>

lemma update_steadfast:
  assumes "steadfast w"
  shows "\<exists>w'. update w i f = Inr w' \<and> steadfast w' \<and> logged w' = logged w \<and>
              calls w' = calls w \<and>
              posts w' = (case posts w i of None \<Rightarrow> posts w | Some p \<Rightarrow> (posts w)(i \<mapsto> f p))"
  using steadfast_answered [OF assms] steadfast_served [OF assms]
  by (simp add: update_def split: option.splits)

lemma format_externalIds [simp]:
  "formatPostForPlatform (p\<lparr>externalIds := x\<rparr>) = formatPostForPlatform p"
  by (rule ext) (simp add: formatPostForPlatform_def mediaUrls_def firstMediaUrl_def Let_def)

lemma steady_format:
  assumes "steady p pid st"
  shows "formatPostForPlatform (loaded st) = formatPostForPlatform p"
  using assms unfolding steady_def by (metis format_externalIds)

text \<open>
  One iteration over a steadfast store: the write of \<open>externalIds\<close>, when there is one,
  is answered, so the iteration adds the result of a platform that succeeded, or the
  error of one that did not, and nothing else.
\<close>

lemma publishTo_steadfast:
  assumes "steady p pid st"
  shows "steady p pid (publishTo e pid st platform) \<and>
         results (publishTo e pid st platform) =
           results st @ (case outcomeOf e p platform of Inr r \<Rightarrow> [r] | Inl x \<Rightarrow> []) \<and>
         errors (publishTo e pid st platform) =
           errors st @ (case outcomeOf e p platform of
                          Inr r \<Rightarrow> []
                        | Inl x \<Rightarrow> [\<lparr>err_platform = Some platform, err_error = x\<rparr>])"
proof (cases "outcomeOf e p platform")
  case (Inl x)
  with assms steady_format [OF assms] show ?thesis
    by (auto simp: steady_def publishTo_def caught_def push_error_def Let_def outcomeOf_def
          split: option.splits sum.splits prod.splits if_splits)
next
  case (Inr r)
  with steady_format [OF assms] obtain svc mth where
    rt: "route platform = Some (svc, mth)" and
    cn: "connector e svc mth (formatPostForPlatform (loaded st) platform) = Inr r" and
    ok: "success r"
    by (auto simp: outcomeOf_def split: option.splits sum.splits prod.splits if_splits)
  let ?ids = "(case externalIds (loaded st) of None \<Rightarrow> Map.empty | Some m \<Rightarrow> m)
                (platform \<mapsto> js_or (postId r) (videoId r))"
  let ?w = "(outside st)\<lparr>calls := calls (outside st) @
              [(svc, mth, formatPostForPlatform (loaded st) platform)]\<rparr>"
  from assms have "steadfast ?w" and present: "posts ?w pid \<noteq> None"
    by (simp_all add: steady_def)
  from update_steadfast [OF this(1), of pid "\<lambda>q. q\<lparr>externalIds := Some ?ids\<rparr>"] present
  obtain w' where up: "update ?w pid (\<lambda>q. q\<lparr>externalIds := Some ?ids\<rparr>) = Inr w'"
    and w': "steadfast w'" "posts w' pid \<noteq> None"
    by (auto split: option.splits)
  from assms have same: "loaded st = p\<lparr>externalIds := externalIds (loaded st)\<rparr>"
    by (simp add: steady_def)
  have same': "(loaded st)\<lparr>externalIds := x\<rparr> = p\<lparr>externalIds := x\<rparr>" for x
    by (subst same) simp
  show ?thesis
    using rt cn ok up w' Inr same
    by (cases "externalIds (loaded st)")
       (simp_all add: publishTo_def Let_def steady_def same')
qed

lemma fanout_steadfast:
  "steady p pid st \<Longrightarrow>
   steady p pid (foldl (publishTo e pid) st ps) \<and>
   results (foldl (publishTo e pid) st ps) =
     results st @
     concat (map (\<lambda>pf. case outcomeOf e p pf of Inr r \<Rightarrow> [r] | Inl x \<Rightarrow> []) ps) \<and>
   errors (foldl (publishTo e pid) st ps) =
     errors st @
     concat (map (\<lambda>pf. case outcomeOf e p pf of
                          Inr r \<Rightarrow> []
                        | Inl x \<Rightarrow> [\<lparr>err_platform = Some pf, err_error = x\<rparr>]) ps)"
proof (induction ps arbitrary: st)
  case Nil
  then show ?case by simp
next
  case (Cons pf ps)
  from publishTo_steadfast [OF Cons.prems, of e pf]
  have step: "steady p pid (publishTo e pid st pf)"
    and rs: "results (publishTo e pid st pf) =
               results st @ (case outcomeOf e p pf of Inr r \<Rightarrow> [r] | Inl x \<Rightarrow> [])"
    and es: "errors (publishTo e pid st pf) =
               errors st @ (case outcomeOf e p pf of
                              Inr r \<Rightarrow> []
                            | Inl x \<Rightarrow> [\<lparr>err_platform = Some pf, err_error = x\<rparr>])"
    by simp_all
  from Cons.IH [OF step] show ?case
    by (simp add: rs es)
qed

lemma findOne_loaded:
  "findOne w pid = Inr (Some p) \<longleftrightarrow> answered w \<and> posts w pid = Some p"
  by (auto simp: findOne_def)

text \<open>What \<open>publishPost\<close> does for a post that it loads from a store that answers the
  calls after the load.\<close>

lemma publishPost_loaded:
  assumes "findOne w pid = Inr (Some p)" and "steadfast (served w)"
  shows "\<exists>w' q. publishPost e pid w =
                  (Inr (Aggregate (failures e p = []) (successes e p) (failures e p) pid), w') \<and>
                posts w' pid = Some q \<and>
                status q = finalStatus (successes e p) (failures e p) \<and>
                publishErrors q = failures e p \<and>
                publishedAt q = Some (now e)"
proof -
  let ?lw = "log_info (LogPublishing pid) w"
  let ?init = "\<lparr>loaded = p, results = [], errors = [], outside = served ?lw\<rparr>"
  let ?fin = "foldl (publishTo e pid) ?init (platforms p)"
  from assms(1) have present: "posts w pid = Some p" and found: "findOne ?lw pid = Inr (Some p)"
    by (simp_all add: findOne_def split: if_splits)
  with assms(2) have init: "steady p pid ?init"
    by (simp add: steady_def)
  from fanout_steadfast [OF init, of e "platforms p"]
  have fin: "steady p pid ?fin"
    and rs: "results ?fin = successes e p"
    and es: "errors ?fin = failures e p"
    by (simp_all add: successes_def failures_def)
  from fin have "steadfast (outside ?fin)" and "posts (outside ?fin) pid \<noteq> None"
    by (simp_all add: steady_def)
  from update_steadfast [OF this(1), of pid
      "\<lambda>q. q\<lparr>status := finalStatus (successes e p) (failures e p),
              publishedAt := Some (now e), publishErrors := failures e p\<rparr>"] this(2)
  obtain w' q0 where
    "update (outside ?fin) pid
       (\<lambda>q. q\<lparr>status := finalStatus (successes e p) (failures e p),
               publishedAt := Some (now e), publishErrors := failures e p\<rparr>) = Inr w'"
    and "posts w' pid = Some (q0\<lparr>status := finalStatus (successes e p) (failures e p),
               publishedAt := Some (now e), publishErrors := failures e p\<rparr>)"
    by (auto split: option.splits)
  then show ?thesis
    unfolding publishPost_def publishBody_def Let_def found
    by (simp add: rs es)
qed




section \<open>Final status of a publish\<close>




section \<open>A post without platforms\<close>

text \<open>
  As stated, the claim fails when the store refuses the final write and answers the
  write of the outer \<open>catch\<close>: the post without platforms is loaded, and the call
  leaves it \<open>failed\<close> and resolves with \<open>{success: false, error}\<close>.
\<close>

theorem no_platforms_refused_final_write:
  "findOne flakyBareStrapi 1 = Inr (Some barePost) \<and>
   platforms barePost = [] \<and>
   fst (publishPost mockEnv 1 flakyBareStrapi) = Inr (Failure storeUnavailable 1) \<and>
   map_option status (posts (snd (publishPost mockEnv 1 flakyBareStrapi)) 1) = Some ''failed''"
  by (simp add: publishPost_def publishBody_def Let_def findOne_def update_def answered_def
        served_def log_info_def finalStatus_def
        flakyBareStrapi_def bareStrapi_def barePost_def mockStrapi_def mockPost_def)

text \<open>
  Claim C9, amended. When the post that \<open>publishPost\<close> loads has no platforms and the
  store answers the final write, no publisher is called, the only change to the posts
  of the store is the final patch of the post (status \<open>published\<close>, the time of
  publication, an empty \<open>publishErrors\<close>; \<open>externalIds\<close> is not touched), and the call
  resolves with \<open>{success: true, results: [], errors: []}\<close>.
\<close>

theorem publishPost_no_platforms:
  assumes "findOne w pid = Inr (Some p)" and "platforms p = []" and "answered (served w)"
  shows "\<exists>w'. publishPost e pid w = (Inr (Aggregate True [] [] pid), w') \<and>
              calls w' = calls w \<and>
              posts w' = (posts w)(pid \<mapsto> p\<lparr>status := ''published'',
                                              publishedAt := Some (now e),
                                              publishErrors := []\<rparr>)"
proof -
  from assms(1) have "answered w" and "posts w pid = Some p"
    by (simp_all add: findOne_loaded)
  with assms(2,3) show ?thesis
    by (simp add: publishPost_def publishBody_def Let_def findOne_def update_def finalStatus_def)
qed

theorem publishPost_no_platforms_witness:
  "findOne bareStrapi 1 = Inr (Some barePost) \<and> platforms barePost = [] \<and>
   answered (served bareStrapi) \<and>
   (\<exists>w'. publishPost mockEnv 1 bareStrapi = (Inr (Aggregate True [] [] 1), w') \<and>
         calls w' = [] \<and>
         map_option status (posts w' 1) = Some ''published'' \<and>
         map_option publishErrors (posts w' 1) = Some [] \<and>
         map_option externalIds (posts w' 1) = Some (externalIds mockPost))"
proof -
  have found: "findOne bareStrapi 1 = Inr (Some barePost)"
    by (simp add: findOne_def answered_def bareStrapi_def mockStrapi_def)
  have none: "platforms barePost = []"
    by (simp add: barePost_def)
  have store: "answered (served bareStrapi)"
    by (simp add: answered_def served_def bareStrapi_def mockStrapi_def)
  from publishPost_no_platforms [OF found none store, of mockEnv] found none store
  show ?thesis
    by (auto simp: bareStrapi_def mockStrapi_def barePost_def)
qed

section \<open>A platform name that is not handled\<close>

lemma route_unhandled: "x \<notin> set handled \<Longrightarrow> route x = None"
  by (simp add: handled_def route_def)

lemma format_platforms [simp]:
  "formatPostForPlatform (p\<lparr>platforms := ps\<rparr>) = formatPostForPlatform p"
  by (rule ext) (simp add: formatPostForPlatform_def mediaUrls_def firstMediaUrl_def Let_def)

lemma outcomeOf_platforms [simp]: "outcomeOf e (p\<lparr>platforms := ps\<rparr>) = outcomeOf e p"
  by (rule ext) (simp add: outcomeOf_def split: option.splits)

text \<open>Whatever the store does, an iteration leaves the errors recorded so far in place.\<close>

lemma publishTo_errors_grow: "\<exists>es. errors (publishTo e pid st x) = errors st @ es"
  by (auto simp: publishTo_def caught_def push_error_def Let_def
        split: option.splits sum.splits prod.splits)

lemma fanout_errors_grow: "\<exists>es. errors (foldl (publishTo e pid) st ps) = errors st @ es"
proof (induction ps arbitrary: st)
  case Nil
  then show ?case by simp
next
  case (Cons x ps)
  from publishTo_errors_grow [of e pid st x] obtain es1 where
    "errors (publishTo e pid st x) = errors st @ es1" by blast
  moreover from Cons [of "publishTo e pid st x"] obtain es2 where
    "errors (foldl (publishTo e pid) (publishTo e pid st x) ps) =
       errors (publishTo e pid st x) @ es2" by blast
  ultimately show ?case by simp
qed

text \<open>
  Claim C10. A platform name \<open>x\<close> outside the six handled ones takes the iteration
  straight to the inner \<open>catch\<close>, with the message of the TypeError for \<open>result.success\<close>
  on an undefined \<open>result\<close>; the loop then goes on with the platforms after \<open>x\<close>, and the
  entry for \<open>x\<close> stays among the errors behind those of the platforms before \<open>x\<close>,
  whatever the store does. Over a store that answers the calls after the load,
  \<open>publishPost\<close> resolves with the results of the platforms before and after \<open>x\<close>, and
  with the errors of those before \<open>x\<close>, the entry for \<open>x\<close>, and the errors of those
  after \<open>x\<close>.
\<close>

theorem unhandled_platform_is_caught:
  assumes "findOne w pid = Inr (Some p)"
    and "platforms p = before @ x # after"
    and "x \<notin> set handled"
  shows "(\<forall>st. publishTo e pid st x = caught x undefinedSuccess st) \<and>
         (\<forall>st. foldl (publishTo e pid) st (platforms p) =
               foldl (publishTo e pid)
                 (caught x undefinedSuccess (foldl (publishTo e pid) st before)) after) \<and>
         (\<forall>st. \<exists>es. errors (foldl (publishTo e pid) st (platforms p)) =
               errors (foldl (publishTo e pid) st before) @
               \<lparr>err_platform = Some x, err_error = JStr undefinedSuccess\<rparr> # es) \<and>
         (steadfast (served w) \<longrightarrow>
          (\<exists>w'. publishPost e pid w =
            (Inr (Aggregate False
                    (successes e (p\<lparr>platforms := before\<rparr>) @
                     successes e (p\<lparr>platforms := after\<rparr>))
                    (failures e (p\<lparr>platforms := before\<rparr>) @
                     \<lparr>err_platform = Some x, err_error = JStr undefinedSuccess\<rparr> #
                     failures e (p\<lparr>platforms := after\<rparr>))
                    pid), w')))"
proof (intro conjI allI impI)
  fix st
  show step: "publishTo e pid st x = caught x undefinedSuccess st" for st
    using assms(3) by (simp add: publishTo_def route_unhandled)
  show continue: "foldl (publishTo e pid) st (platforms p) =
        foldl (publishTo e pid)
          (caught x undefinedSuccess (foldl (publishTo e pid) st before)) after" for st
    by (simp add: assms(2) step)
  from fanout_errors_grow
    [of e pid "caught x undefinedSuccess (foldl (publishTo e pid) st before)" after]
  show "\<exists>es. errors (foldl (publishTo e pid) st (platforms p)) =
               errors (foldl (publishTo e pid) st before) @
               \<lparr>err_platform = Some x, err_error = JStr undefinedSuccess\<rparr> # es"
    by (auto simp: continue caught_def push_error_def)
next
  assume store: "steadfast (served w)"
  have ox: "outcomeOf e p x = Inl (JStr undefinedSuccess)"
    using assms(3) by (simp add: outcomeOf_def route_unhandled)
  have rs: "successes e p =
              successes e (p\<lparr>platforms := before\<rparr>) @ successes e (p\<lparr>platforms := after\<rparr>)"
    by (simp add: successes_def assms(2) ox)
  have es: "failures e p =
              failures e (p\<lparr>platforms := before\<rparr>) @
              \<lparr>err_platform = Some x, err_error = JStr undefinedSuccess\<rparr> #
              failures e (p\<lparr>platforms := after\<rparr>)"
    by (simp add: failures_def assms(2) ox)
  from publishPost_loaded [OF assms(1) store, of e] obtain w' where
    "publishPost e pid w =
       (Inr (Aggregate (failures e p = []) (successes e p) (failures e p) pid), w')"
    by blast
  then show "\<exists>w'. publishPost e pid w =
            (Inr (Aggregate False
                    (successes e (p\<lparr>platforms := before\<rparr>) @
                     successes e (p\<lparr>platforms := after\<rparr>))
                    (failures e (p\<lparr>platforms := before\<rparr>) @
                     \<lparr>err_platform = Some x, err_error = JStr undefinedSuccess\<rparr> #
                     failures e (p\<lparr>platforms := after\<rparr>))
                    pid), w')"
    by (simp add: rs es)
qed

theorem unhandled_platform_is_caught_witness:
  "\<exists>w'. publishPost mockEnv 1
           (mockStrapi\<lparr>posts := [1 \<mapsto> mockPost\<lparr>platforms := [''twitter'', ''mastodon'', ''facebook'']\<rparr>]\<rparr>)
         = (Inr (Aggregate False [fbResult]
                   [\<lparr>err_platform = Some ''twitter'', err_error = JStr ''rate limited''\<rparr>,
                    \<lparr>err_platform = Some ''mastodon'', err_error = JStr undefinedSuccess\<rparr>]
                   1), w')"
proof -
  let ?p = "mockPost\<lparr>platforms := [''twitter'', ''mastodon'', ''facebook'']\<rparr>"
  let ?w = "mockStrapi\<lparr>posts := [1 \<mapsto> ?p]\<rparr>"
  have found: "findOne ?w 1 = Inr (Some ?p)"
    by (simp add: findOne_def answered_def mockStrapi_def)
  have split: "platforms ?p = [''twitter''] @ ''mastodon'' # [''facebook'']"
    by simp
  have odd: "''mastodon'' \<notin> set handled"
    by (simp add: handled_def)
  have store: "steadfast (served ?w)"
    by (simp add: steadfast_def served_def mockStrapi_def)
  have rs: "successes mockEnv (?p\<lparr>platforms := [''twitter'']\<rparr>) = [] \<and>
            successes mockEnv (?p\<lparr>platforms := [''facebook'']\<rparr>) = [fbResult]"
    by (simp add: successes_def outcomeOf_def route_def mockEnv_def fbResult_def twResult_def)
  have es: "failures mockEnv (?p\<lparr>platforms := [''twitter'']\<rparr>) =
              [\<lparr>err_platform = Some ''twitter'', err_error = JStr ''rate limited''\<rparr>] \<and>
            failures mockEnv (?p\<lparr>platforms := [''facebook'']\<rparr>) = []"
    by (simp add: failures_def outcomeOf_def route_def mockEnv_def fbResult_def twResult_def)
  from unhandled_platform_is_caught [OF found split odd, of mockEnv] store rs es
  show ?thesis
    by simp
qed

section \<open>Exceptions outside the fan-out\<close>

lemma publishPost_unreachable:
  assumes "\<not> available w"
  shows "fst (publishPost e pid w) = Inl storeUnavailable"
proof -
  have load: "\<not> answered w" and mark: "\<not> answered (served w)"
    using assms by (simp_all add: unavailable_refuses)
  show ?thesis
    by (simp add: publishPost_def publishBody_def Let_def findOne_def update_def load mark)
qed

text \<open>A refused load that is followed by an answered write of the handler is caught:
  the call resolves with the failure object.\<close>

lemma publishPost_load_refused:
  assumes "\<not> answered w" and "answered (served w)"
  shows "fst (publishPost e pid w) = Inr (Failure storeUnavailable pid)"
  using assms
  by (simp add: publishPost_def publishBody_def Let_def findOne_def update_def
        split: option.splits)

text \<open>
  Over a store that answers every call \<open>publishPost\<close> always resolves; for an id that
  the store does not hold it resolves with \<open>Post not found\<close> and leaves the posts as
  they were (the \<open>update\<close> of the handler meets no post).
\<close>

lemma publishPost_not_found:
  assumes "answered w" and "answered (served w)" and "posts w pid = None"
  shows "\<exists>w'. publishPost e pid w = (Inr (Failure ''Post not found'' pid), w') \<and>
              posts w' = posts w"
  using assms
  by (simp add: publishPost_def publishBody_def Let_def findOne_def update_def)

lemma publishPost_resolves:
  assumes "steadfast w"
  shows "\<exists>r w'. publishPost e pid w = (Inr r, w')"
proof (cases "posts w pid")
  case None
  from assms have "answered w" and "answered (served w)"
    by (simp_all add: steadfast_answered steadfast_served)
  with None publishPost_not_found [of w pid e] show ?thesis by blast
next
  case (Some p)
  with assms have "findOne w pid = Inr (Some p)"
    by (simp add: findOne_def steadfast_answered)
  from publishPost_loaded [OF this steadfast_served [OF assms], of e] show ?thesis by blast
qed

text \<open>
  Claim C2. The claim holds over a store that answers every call (the two lemmas
  above). It fails when the store cannot be reached: \<open>findOne\<close> throws, the outer \<open>catch\<close>
  calls \<open>update\<close> to mark the post failed, that call throws as well, and nothing catches
  it. The promise of \<open>publishPost\<close> rejects with the error of the store.
\<close>

theorem publishPost_rejects_on_unreachable_store:
  "fst (publishPost mockEnv 1 (mockStrapi\<lparr>available := False\<rparr>)) = Inl storeUnavailable"
  by (simp add: publishPost_unreachable)

section \<open>Posts that are already due\<close>

lemma invocations_log_error [simp]: "invocations (log_info (LogError a b) w) = invocations w"
  by (simp add: invocations_def log_info_def)

lemma invocations_served [simp]: "invocations (served w) = invocations w"
  by (simp add: invocations_def)

lemma update_logged: "update w i f = Inr w' \<Longrightarrow> logged w' = logged w"
  by (auto simp: update_def split: if_splits option.splits)

lemma update_invocations: "update w i f = Inr w' \<Longrightarrow> invocations w' = invocations w"
  by (simp add: invocations_def update_logged)

lemma publishTo_invocations:
  "invocations (outside (publishTo e pid st x)) = invocations (outside st)"
  by (auto simp: publishTo_def caught_def push_error_def Let_def invocations_def log_info_def
        update_def split: option.splits sum.splits prod.splits)

lemma fanout_invocations:
  "invocations (outside (foldl (publishTo e pid) st ps)) = invocations (outside st)"
  by (induction ps arbitrary: st) (simp_all add: publishTo_invocations)

lemma publishBody_invocations:
  "invocations (snd (publishBody e pid w)) = invocations w @ [pid]"
proof -
  have start: "invocations (log_info (LogPublishing pid) w) = invocations w @ [pid]"
    by (simp add: invocations_def log_info_def)
  show ?thesis
    unfolding publishBody_def Let_def
    by (auto simp: start fanout_invocations update_invocations split: sum.splits option.splits)
qed

text \<open>Every call of \<open>publishPost\<close>, whatever its end, is one more invocation.\<close>

lemma publishPost_invocations:
  "invocations (snd (publishPost e pid w)) = invocations w @ [pid]"
proof (cases "publishBody e pid w")
  case (Pair r w1)
  with publishBody_invocations [of e pid w] have w1: "invocations w1 = invocations w @ [pid]"
    by simp
  show ?thesis
    unfolding publishPost_def Pair Let_def
    by (auto simp: w1 update_invocations split: sum.splits)
qed

text \<open>
  Claim C5. For a post whose \<open>scheduledAt\<close> is not after the clock (equal included),
  \<open>schedulePost\<close> registers no task with node-cron, leaves the Job Table as it is, and
  invokes the orchestrator for the post exactly once: the world it leaves is the world
  left by that one call (with one more log line when the call rejected).
\<close>

theorem schedulePost_due:
  assumes "scheduledAt p \<le> now e"
  shows "tasks (snd (schedulePost e p s)) = tasks s \<and>
         jobs (snd (schedulePost e p s)) = jobs s \<and>
         invocations (strapi (snd (schedulePost e p s))) = invocations (strapi s) @ [post_id p] \<and>
         (case publishPost e (post_id p) (strapi s) of
            (Inr r, w) \<Rightarrow> schedulePost e p s = (Undefined, s\<lparr>strapi := w\<rparr>)
          | (Inl msg, w) \<Rightarrow>
              schedulePost e p s = (Failed msg, s\<lparr>strapi := schedulingFailed msg w\<rparr>))"
proof (cases "publishPost e (post_id p) (strapi s)")
  case (Pair r w)
  with publishPost_invocations [of e "post_id p" "strapi s"]
  have "invocations w = invocations (strapi s) @ [post_id p]" by simp
  with assms Pair show ?thesis
    by (cases r) (simp_all add: schedulePost_def schedulingFailed_def)
qed

theorem schedulePost_due_witness:
  "scheduledAt mockPost \<le> now (mockEnv\<lparr>now := scheduledAt mockPost\<rparr>) \<and>
   tasks (snd (schedulePost (mockEnv\<lparr>now := scheduledAt mockPost\<rparr>) mockPost (created mockStrapi)))
     = [] \<and>
   jobs (snd (schedulePost (mockEnv\<lparr>now := scheduledAt mockPost\<rparr>) mockPost (created mockStrapi)))
     = [] \<and>
   invocations
     (strapi (snd (schedulePost (mockEnv\<lparr>now := scheduledAt mockPost\<rparr>) mockPost
                     (created mockStrapi)))) = [1]"
proof -
  have due: "scheduledAt mockPost \<le> now (mockEnv\<lparr>now := scheduledAt mockPost\<rparr>)"
    by simp
  from schedulePost_due [OF due, of "created mockStrapi"] due
  show ?thesis
    by (simp add: created_def mockStrapi_def invocations_def mockPost_def)
qed

section \<open>Posts that are due later\<close>

lemma digits_no_space: "CHR '' '' \<notin> set (digits n)"
proof (induction n rule: digits.induct)
  case (1 n)
  have d: "k < 10 \<Longrightarrow> CHR '' '' \<notin> set [''0123456789'' ! k]" for k :: nat
  proof -
    assume "k < 10"
    then have "k \<in> {0, 1, 2, 3, 4, 5, 6, 7, 8, 9}" by auto
    then show ?thesis by auto
  qed
  show ?case
  proof (cases "n < 10")
    case True
    then show ?thesis using d [of n] by (subst digits.simps) simp
  next
    case False
    with 1 have "CHR '' '' \<notin> set (digits (n div 10))" by simp
    moreover have "n mod 10 < 10" by simp
    ultimately show ?thesis using False d [of "n mod 10"]
      by (subst digits.simps) simp
  qed
qed

lemma toString_no_space: "CHR '' '' \<notin> set (toString i)"
  by (simp add: toString_def digits_no_space)

lemma fields_cut: "CHR '' '' \<notin> set a \<Longrightarrow> fields (a @ CHR '' '' # b) = a # fields b"
  by (induction a) auto

lemma fields_cronExpression:
  "fields (cronExpression z) =
     [toString (getMinutes z), toString (getHours z), toString (getDate z),
      toString (getMonth z + 1), ''*'']"
  unfolding cronExpression_def
  by (simp add: fields_cut toString_no_space)

lemma toString_1: "toString 1 = ''1''"
  by code_simp

lemma newYork_15_January:
  "cronExpression (fixedOffsetZones 1768529100000 ''America/New_York'') = ''5 21 15 1 *''"
  by code_simp

lemma newYork_a_year_later:
  "cronExpression (fixedOffsetZones 1800065100000 ''America/New_York'') = ''5 21 15 1 *''"
  by code_simp

lemma newYork_16_January:
  "cronExpression (fixedOffsetZones 1768615500000 ''America/New_York'') = ''5 21 16 1 *''"
  by code_simp

lemma utc_16_January:
  "cronExpression (fixedOffsetZones 1768529100000 ''UTC'') = ''5 2 16 1 *''"
  by code_simp

text \<open>
  Claim C6. For a post due after the clock, the expression that \<open>schedulePost\<close> derives
  has five fields: minute, hour, day of month and month (counted from 1) of the instant
  as \<open>utcToZonedTime\<close> renders it in the post's time zone (\<open>UTC\<close> when the post names
  none), and \<open>*\<close> for the day of week. When \<open>cron.validate\<close> accepts it, a running task
  with this expression and zone is registered, the Job Table gets the entry of the
  post, and the result is \<open>{success: true, postId, scheduledAt, cronExpression}\<close>; when
  it does not, the result is \<open>{success: false, error}\<close> and nothing is registered.
\<close>

theorem schedulePost_future:
  assumes "now e < scheduledAt p"
  shows "let tz = (case timezone p of None \<Rightarrow> ''UTC'' | Some z \<Rightarrow> if z = [] then ''UTC'' else z);
             z = utcToZonedTime e (scheduledAt p) tz;
             expr = cronExpression z;
             s' = snd (schedulePost e p s)
         in fields expr = [toString (getMinutes z), toString (getHours z),
                           toString (getDate z), toString (getMonth z + 1), ''*''] \<and>
            (validate e expr \<longrightarrow>
               fst (schedulePost e p s) = Scheduled (post_id p) (scheduledAt p) expr \<and>
               tasks s' = tasks s @
                 [\<lparr>expression = expr, zone = tz, target = post_id p, running = True\<rparr>] \<and>
               map_of (jobs s') (toString (post_id p)) =
                 Some \<lparr>job_id = toString (post_id p), task = length (tasks s),
                       job_postId = post_id p, job_scheduledAt = scheduledAt p\<rparr>) \<and>
            (\<not> validate e expr \<longrightarrow>
               fst (schedulePost e p s) = Failed (''Invalid cron expression: '' @ expr) \<and>
               tasks s' = tasks s \<and> jobs s' = jobs s)"
  using assms
  by (simp add: schedulePost_def Let_def timezoneOf_def update_conv' fields_cronExpression)

theorem schedulePost_future_witness:
  "now mockEnv < scheduledAt mockPost \<and>
   fst (schedulePost mockEnv mockPost (created mockStrapi))
     = Scheduled 1 1768529100000 ''5 21 15 1 *'' \<and>
   map zone (tasks (snd (schedulePost mockEnv mockPost (created mockStrapi))))
     = [''America/New_York''] \<and>
   fst (schedulePost mockEnv (mockPost\<lparr>timezone := None\<rparr>) (created mockStrapi))
     = Scheduled 1 1768529100000 ''5 2 16 1 *''"
proof -
  have later: "now mockEnv < scheduledAt mockPost"
    by (simp add: mockEnv_def mockPost_def)
  have later': "now mockEnv < scheduledAt (mockPost\<lparr>timezone := None\<rparr>)"
    by (simp add: mockEnv_def mockPost_def)
  have library: "utcToZonedTime mockEnv = fixedOffsetZones" "validate mockEnv x" for x
    by (simp_all add: mockEnv_def)
  have fixture: "timezone mockPost = Some ''America/New_York''"
    "scheduledAt mockPost = 1768529100000" "post_id mockPost = 1"
    by (simp_all add: mockPost_def)
  from schedulePost_future [OF later, of "created mockStrapi"]
    schedulePost_future [OF later', of "created mockStrapi"] later
  show ?thesis
    by (simp add: Let_def library fixture newYork_15_January utc_16_January created_def)
qed

section \<open>The Job Table\<close>

lemma stop_running: "h < length ts \<Longrightarrow> \<not> running (stop h ts ! h)"
  by (simp add: stop_def)

lemma stop_length [simp]: "length (stop h ts) = length ts"
  by (simp add: stop_def)

lemma set_delete: "set (AList.delete k al) = {kv \<in> set al. fst kv \<noteq> k}"
  by (auto simp: AList.delete_eq)

lemma set_update_subset: "set (AList.update k v al) \<subseteq> insert (k, v) (set al)"
  by (induction al) auto

text \<open>Every operation of the scheduler keeps the Job Table keyed.\<close>

lemma keyed_created: "keyed (created w)"
  by (simp add: keyed_def created_def)

lemma keyed_schedulePost: "keyed s \<Longrightarrow> keyed (snd (schedulePost e p s))"
proof -
  assume k: "keyed s"
  have "keyed (s\<lparr>tasks := tasks s @ [t],
                 jobs := AList.update (toString (post_id p))
                           \<lparr>job_id = i, task = length (tasks s), job_postId = post_id p,
                            job_scheduledAt = a\<rparr> (jobs s),
                 strapi := w\<rparr>)" for t i a w
    using k set_update_subset [of "toString (post_id p)" _ "jobs s"]
    by (fastforce simp: keyed_def)
  with k show ?thesis
    by (auto simp: schedulePost_def Let_def keyed_def split: prod.splits sum.splits)
qed

lemma keyed_unschedulePost: "keyed s \<Longrightarrow> keyed (snd (unschedulePost pid s))"
  by (auto simp: keyed_def unschedulePost_def Let_def set_delete split: option.splits)

lemma keyed_fire: "keyed s \<Longrightarrow> keyed (fire e h s)"
  by (auto simp: keyed_def fire_def Let_def set_delete split: prod.splits sum.splits)

lemma keyed_reschedulePost: "keyed s \<Longrightarrow> keyed (snd (reschedulePost e pid t s))"
proof -
  assume "keyed s"
  then have k: "keyed (snd (unschedulePost pid s))"
    by (rule keyed_unschedulePost)
  then have "keyed (snd (unschedulePost pid s)\<lparr>strapi := w\<rparr>)" for w
    by (simp add: keyed_def)
  with k show ?thesis
    by (auto simp: reschedulePost_def Let_def reschedulingFailed_def
          keyed_def [of "_\<lparr>strapi := _\<rparr>"]
          intro: keyed_schedulePost split: sum.splits option.splits)
qed

lemma listed_posts:
  "fst ` set (getScheduledJobs s) = (\<lambda>(k, job). job_postId job) ` set (jobs s)"
  by (force simp: getScheduledJobs_def)

lemma unscheduled_absent:
  assumes "keyed s"
  shows "pid \<notin> fst ` set (getScheduledJobs (snd (unschedulePost pid s)))"
proof
  let ?s' = "snd (unschedulePost pid s)"
  assume "pid \<in> fst ` set (getScheduledJobs ?s')"
  then obtain k job where mem: "(k, job) \<in> set (jobs ?s')" and pid: "job_postId job = pid"
    by (auto simp: listed_posts)
  have sub: "set (jobs ?s') \<subseteq> set (jobs s)"
    by (auto simp: unschedulePost_def Let_def set_delete split: option.splits)
  with mem assms pid have k: "k = toString pid"
    by (auto simp: keyed_def)
  have "map_of (jobs ?s') (toString pid) = None"
    by (simp add: unschedulePost_def Let_def delete_conv' split: option.splits)
  then have "toString pid \<notin> fst ` set (jobs ?s')"
    by (simp add: map_of_eq_None_iff)
  with mem k show False
    by force
qed

lemma scheduledOnce_eq:
  "tasks scheduledOnce =
     [\<lparr>expression = ''5 21 15 1 *'', zone = ''America/New_York'', target = 1,
       running = True\<rparr>] \<and>
   jobs scheduledOnce =
     [(''1'', \<lparr>job_id = ''1'', task = 0, job_postId = 1, job_scheduledAt = 1768529100000\<rparr>)] \<and>
   steadfast (strapi scheduledOnce) \<and> invocations (strapi scheduledOnce) = [] \<and>
   posts (strapi scheduledOnce) = posts mockStrapi"
  by (simp add: scheduledOnce_def schedulePost_def mockEnv_def mockPost_def created_def Let_def
        timezoneOf_def newYork_15_January toString_1 mockStrapi_def log_info_def
        invocations_def steadfast_def)

text \<open>
  Claim C7. When the Job Table has an entry under the string form of \<open>postId\<close>,
  \<open>unschedulePost\<close> stops the task of that entry, removes the entry and returns
  \<open>{success: true}\<close>; when it has none, it returns \<open>{success: false, error: 'Job not
  found'}\<close> and changes nothing. So a second call for the same \<open>postId\<close> reports
  \<open>Job not found\<close>, and \<open>getScheduledJobs\<close> after the call does not list \<open>postId\<close>.
\<close>

theorem unschedulePost_result:
  "(\<forall>job. map_of (jobs s) (toString pid) = Some job \<longrightarrow>
       fst (unschedulePost pid s) = Succeeded \<and>
       tasks (snd (unschedulePost pid s)) = stop (task job) (tasks s) \<and>
       (task job < length (tasks s) \<longrightarrow>
          \<not> running (tasks (snd (unschedulePost pid s)) ! task job)) \<and>
       map_of (jobs (snd (unschedulePost pid s))) (toString pid) = None) \<and>
   (map_of (jobs s) (toString pid) = None \<longrightarrow>
       unschedulePost pid s = (Failed ''Job not found'', s)) \<and>
   fst (unschedulePost pid (snd (unschedulePost pid s))) = Failed ''Job not found'' \<and>
   (keyed s \<longrightarrow> pid \<notin> fst ` set (getScheduledJobs (snd (unschedulePost pid s))))"
proof -
  have gone: "map_of (jobs (snd (unschedulePost pid s))) (toString pid) = None"
    by (simp add: unschedulePost_def Let_def delete_conv' split: option.splits)
  then have again:
    "fst (unschedulePost pid (snd (unschedulePost pid s))) = Failed ''Job not found''"
    by (simp add: unschedulePost_def [of pid "snd (unschedulePost pid s)"])
  show ?thesis
    using gone again unscheduled_absent [of s pid]
    by (auto simp: unschedulePost_def Let_def stop_running)
qed

theorem unschedulePost_result_witness:
  "keyed scheduledOnce \<and>
   fst (unschedulePost 1 scheduledOnce) = Succeeded \<and>
   map running (tasks (snd (unschedulePost 1 scheduledOnce))) = [False] \<and>
   1 \<notin> fst ` set (getScheduledJobs (snd (unschedulePost 1 scheduledOnce))) \<and>
   fst (unschedulePost 1 (snd (unschedulePost 1 scheduledOnce))) = Failed ''Job not found'' \<and>
   unschedulePost 999 scheduledOnce = (Failed ''Job not found'', scheduledOnce)"
proof -
  have k: "keyed scheduledOnce"
    unfolding scheduledOnce_def by (rule keyed_schedulePost) (rule keyed_created)
  have present: "map_of (jobs scheduledOnce) (toString 1) =
      Some \<lparr>job_id = ''1'', task = 0, job_postId = 1, job_scheduledAt = 1768529100000\<rparr>"
    using scheduledOnce_eq by (simp add: toString_1)
  have absent: "map_of (jobs scheduledOnce) (toString 999) = None"
    using scheduledOnce_eq by (simp add: toString_def digits.simps)
  from unschedulePost_result [of scheduledOnce 1] unschedulePost_result [of scheduledOnce 999]
    k present absent scheduledOnce_eq
  show ?thesis
    by (simp add: stop_def getScheduledJobs_def)
qed

section \<open>Triggers after their fire\<close>

lemma fire_tasks: "tasks (fire e h s) = tasks s"
  by (simp add: fire_def Let_def split: prod.splits sum.splits)

lemma fire_invocations:
  assumes "h < length (tasks s)" and "running (tasks s ! h)"
  shows "invocations (strapi (fire e h s)) = invocations (strapi s) @ [target (tasks s ! h)]"
proof (cases "publishPost e (target (tasks s ! h)) (strapi s)")
  case (Pair r w)
  with publishPost_invocations [of e "target (tasks s ! h)" "strapi s"]
  have "invocations w = invocations (strapi s) @ [target (tasks s ! h)]" by simp
  with assms Pair show ?thesis
    by (cases r) (simp_all add: fire_def)
qed

lemma fire_jobs:
  assumes "h < length (tasks s)" and "running (tasks s ! h)" and "steadfast (strapi s)"
  shows "jobs (fire e h s) = AList.delete (toString (target (tasks s ! h))) (jobs s)"
  using assms publishPost_resolves [OF assms(3), of e "target (tasks s ! h)"]
  by (auto simp: fire_def)

text \<open>
  Claim C3. The callback of a task calls \<open>publishPost\<close> and deletes the entry of the post
  from the Job Table; it does not stop the task (\<open>fire_tasks\<close>: a fire leaves the
  registry of node-cron as it was). For the fixture post the entry is gone after the
  first fire, but the task is still running, its expression matches the wall clock
  again a year later, and the fire of that day invokes the orchestrator a second time.
\<close>

theorem trigger_survives_its_fire:
  "jobs firedOnce = [] \<and>
   liveTriggers 1 firedOnce = {0} \<and>
   running (tasks firedOnce ! 0) \<and>
   expression (tasks firedOnce ! 0) =
     cronExpression (fixedOffsetZones 1800065100000 (zone (tasks firedOnce ! 0))) \<and>
   invocations (strapi firedOnce) = [1] \<and>
   invocations (strapi firedTwice) = [1, 1]"
proof -
  have t1: "tasks firedOnce = tasks scheduledOnce"
    by (simp add: firedOnce_def fire_tasks)
  have j1: "jobs firedOnce = []"
    unfolding firedOnce_def using scheduledOnce_eq
    by (subst fire_jobs) (simp_all add: toString_1)
  have i1: "invocations (strapi firedOnce) = [1]"
    unfolding firedOnce_def using scheduledOnce_eq
    by (subst fire_invocations) simp_all
  have i2: "invocations (strapi firedTwice) = [1, 1]"
    unfolding firedTwice_def using t1 i1 scheduledOnce_eq
    by (subst fire_invocations) simp_all
  show ?thesis
    using t1 j1 i1 i2 scheduledOnce_eq by (simp add: newYork_a_year_later liveTriggers_def)
qed

section \<open>Scheduling a post that is already scheduled\<close>

lemma scheduledTwice_eq:
  "tasks scheduledTwice =
     [\<lparr>expression = ''5 21 15 1 *'', zone = ''America/New_York'', target = 1,
       running = True\<rparr>,
      \<lparr>expression = ''5 21 16 1 *'', zone = ''America/New_York'', target = 1,
       running = True\<rparr>] \<and>
   jobs scheduledTwice =
     [(''1'', \<lparr>job_id = ''1'', task = 1, job_postId = 1, job_scheduledAt = 1768615500000\<rparr>)]"
  using scheduledOnce_eq
  by (simp add: scheduledTwice_def schedulePost_def mockEnv_def mockPost_def Let_def
        timezoneOf_def newYork_16_January toString_1)

text \<open>
  \<open>reschedulePost\<close> does cancel the trigger it replaces. From a state in which the live
  triggers of the post are those of its entry in the Job Table, a reschedule to a later
  time that passes validation leaves one live trigger, the new one, and the entry of
  the post has the new time.
\<close>

lemma liveTriggers_iff:
  "h \<in> liveTriggers pid s \<longleftrightarrow>
   h < length (tasks s) \<and> running (tasks s ! h) \<and> target (tasks s ! h) = pid"
  by (auto simp: liveTriggers_def)

lemma unschedulePost_live:
  assumes "liveTriggers pid s =
             (case map_of (jobs s) (toString pid) of None \<Rightarrow> {} | Some job \<Rightarrow> {task job})"
  shows "liveTriggers pid (snd (unschedulePost pid s)) = {}"
proof (cases "map_of (jobs s) (toString pid)")
  case None
  with assms show ?thesis by (simp add: unschedulePost_def)
next
  case (Some job)
  with assms have only: "liveTriggers pid s = {task job}" by simp
  have "h \<notin> liveTriggers pid (snd (unschedulePost pid s))" for h
  proof (cases "h = task job")
    case True
    then show ?thesis using Some
      by (auto simp: liveTriggers_iff unschedulePost_def stop_def)
  next
    case False
    with only have "h \<notin> liveTriggers pid s" by simp
    with False show ?thesis using Some
      by (auto simp: liveTriggers_iff unschedulePost_def stop_def)
  qed
  then show ?thesis by blast
qed

lemma reschedulePost_one_trigger:
  assumes only: "liveTriggers pid s =
                   (case map_of (jobs s) (toString pid) of None \<Rightarrow> {} | Some job \<Rightarrow> {task job})"
    and found: "findOne (strapi s) pid = Inr (Some p)"
    and store: "answered (served (strapi s))"
    and id: "post_id p = pid"
    and later: "now e < t"
    and valid: "validate e (cronExpression (utcToZonedTime e t (timezoneOf p)))"
  shows "liveTriggers pid (snd (reschedulePost e pid t s)) = {length (tasks s)} \<and>
         map_of (jobs (snd (reschedulePost e pid t s))) (toString pid) =
           Some \<lparr>job_id = toString pid, task = length (tasks s), job_postId = pid,
                 job_scheduledAt = t\<rparr>"
proof -
  let ?u = "snd (unschedulePost pid s)"
  have none: "liveTriggers pid ?u = {}"
    using only by (rule unschedulePost_live)
  have len: "length (tasks ?u) = length (tasks s)"
    by (simp add: unschedulePost_def Let_def split: option.splits)
  from found have ans: "answered (strapi s)" and present: "posts (strapi s) pid = Some p"
    by (simp_all add: findOne_loaded)
  have found': "findOne (strapi ?u) pid = Inr (Some p)"
    using ans present
    by (simp add: unschedulePost_def Let_def findOne_def split: option.splits)
  have ans': "answered (served (strapi ?u))"
    and present': "posts (served (strapi ?u)) pid = Some p"
    using store present
    by (simp_all add: unschedulePost_def Let_def split: option.splits)
  obtain w where upd: "update (served (strapi ?u)) pid (\<lambda>q. q\<lparr>scheduledAt := t\<rparr>) = Inr w"
    using ans' present' by (simp add: update_def)
  let ?p = "p\<lparr>scheduledAt := t\<rparr>"
  have re: "reschedulePost e pid t s = schedulePost e ?p (?u\<lparr>strapi := w\<rparr>)"
    by (simp add: reschedulePost_def Let_def found' upd)
  have tz: "timezoneOf ?p = timezoneOf p"
    by (simp add: timezoneOf_def)
  let ?s' = "snd (schedulePost e ?p (?u\<lparr>strapi := w\<rparr>))"
  have tasks': "tasks ?s' = tasks ?u @
      [\<lparr>expression = cronExpression (utcToZonedTime e t (timezoneOf p)), zone = timezoneOf p,
        target = pid, running = True\<rparr>]"
    and jobs': "map_of (jobs ?s') (toString pid) =
           Some \<lparr>job_id = toString pid, task = length (tasks s), job_postId = pid,
                 job_scheduledAt = t\<rparr>"
    using later valid id len
    by (simp_all add: schedulePost_def Let_def tz update_conv')
  have "h \<in> liveTriggers pid ?s' \<longleftrightarrow> h = length (tasks s)" for h
  proof (cases "h < length (tasks ?u)")
    case True
    with none have "\<not> (running (tasks ?u ! h) \<and> target (tasks ?u ! h) = pid)"
      by (auto simp: liveTriggers_iff)
    with True len show ?thesis
      by (auto simp: liveTriggers_iff tasks' nth_append)
  next
    case False
    with len show ?thesis
      by (auto simp: liveTriggers_iff tasks' nth_append)
  qed
  then have "liveTriggers pid ?s' = {length (tasks s)}"
    by blast
  with jobs' re show ?thesis
    by simp
qed

lemma scheduledOnce_unfolded:
  "scheduledOnce =
     \<lparr>jobs = [(''1'', \<lparr>job_id = ''1'', task = 0, job_postId = 1,
                       job_scheduledAt = 1768529100000\<rparr>)],
      tasks = [\<lparr>expression = ''5 21 15 1 *'', zone = ''America/New_York'', target = 1,
                running = True\<rparr>],
      strapi = log_info (LogScheduled 1 1768529100000) mockStrapi\<rparr>"
  by (simp add: scheduledOnce_def schedulePost_def mockEnv_def mockPost_def created_def Let_def
        timezoneOf_def newYork_15_January toString_1)

lemma reschedulePost_replaces:
  "map running (tasks rescheduled) = [False, True] \<and>
   map expression (tasks rescheduled) = [''5 21 15 1 *'', ''5 21 16 1 *''] \<and>
   getScheduledJobs rescheduled = [(1, 1768615500000)] \<and>
   map (task \<circ> snd) (jobs rescheduled) = [1]"
  by (simp add: rescheduled_def scheduledOnce_unfolded reschedulePost_def unschedulePost_def
        toString_1 stop_def Let_def findOne_def update_def answered_def served_def
        log_info_def mockStrapi_def schedulePost_def mockEnv_def mockPost_def timezoneOf_def
        newYork_16_January getScheduledJobs_def)

text \<open>
  Claim C4. \<open>schedulePost\<close> does not cancel anything: it registers a new task and
  overwrites the entry of the post. After two calls for the fixture post, two live
  triggers target the post and the Job Table knows the second only; \<open>unschedulePost\<close>
  then stops that one, and the first keeps running with no entry left to reach it.
\<close>

theorem schedulePost_twice_leaves_two_triggers:
  "liveTriggers 1 scheduledTwice = {0, 1} \<and>
   map (task \<circ> snd) (jobs scheduledTwice) = [1] \<and>
   liveTriggers 1 (snd (unschedulePost 1 scheduledTwice)) = {0} \<and>
   jobs (snd (unschedulePost 1 scheduledTwice)) = []"
  using scheduledTwice_eq
  by (simp add: liveTriggers_def upt_rec unschedulePost_def toString_1 stop_def)

section \<open>Overrides in the payload\<close>

text \<open>
  As stated, the claim fails for twitter: an override of \<open>text\<close> does not reach the
  payload, which keeps the content of the post.
\<close>

theorem twitter_text_override_is_ignored:
  "formatPostForPlatform overriddenTweet ''twitter'' \<noteq>
   computedDefaults overriddenTweet ''twitter'' ++ overridesOf overriddenTweet ''twitter''"
proof
  assume "formatPostForPlatform overriddenTweet ''twitter'' =
          computedDefaults overriddenTweet ''twitter'' ++ overridesOf overriddenTweet ''twitter''"
  then have "formatPostForPlatform overriddenTweet ''twitter'' ''text'' =
             (computedDefaults overriddenTweet ''twitter'' ++
              overridesOf overriddenTweet ''twitter'') ''text''"
    by simp
  then show False
    by (simp add: Let_def formatPostForPlatform_def computedDefaults_def overridesOf_def
          overriddenTweet_def mockPost_def)
qed

lemma format_facebook:
  "formatPostForPlatform p ''facebook'' =
   computedDefaults p ''facebook'' ++ overridesOf p ''facebook''"
  by (simp add: Let_def formatPostForPlatform_def computedDefaults_def overridesOf_def)

lemma format_instagram:
  "formatPostForPlatform p ''instagram'' =
   computedDefaults p ''instagram'' ++ overridesOf p ''instagram''"
  by (simp add: Let_def formatPostForPlatform_def computedDefaults_def overridesOf_def)

lemma format_twitter:
  "formatPostForPlatform p ''twitter'' =
   computedDefaults p ''twitter'' ++
   truthyOnly (overridesOf p ''twitter'' |` {''threadMode'', ''threadPosts''})"
  by (rule ext)
     (simp add: Let_def formatPostForPlatform_def computedDefaults_def overridesOf_def
        truthyOnly_def map_add_def restrict_map_def js_or_def getProp_def
        split: option.splits)

lemma format_linkedin:
  "formatPostForPlatform p ''linkedin'' =
   computedDefaults p ''linkedin'' ++
   truthyOnly (overridesOf p ''linkedin'' |` {''visibility''})"
  by (rule ext)
     (simp add: Let_def formatPostForPlatform_def computedDefaults_def overridesOf_def
        truthyOnly_def map_add_def restrict_map_def js_or_def getProp_def
        split: option.splits)

lemma format_youtube:
  "formatPostForPlatform p ''youtube'' =
   computedDefaults p ''youtube'' ++
   truthyOnly (overridesOf p ''youtube'' |` {''title'', ''description'', ''privacy'', ''tags''}) ++
   (overridesOf p ''youtube'' |` {''category''})"
  by (rule ext)
     (simp add: Let_def formatPostForPlatform_def computedDefaults_def overridesOf_def
        truthyOnly_def map_add_def restrict_map_def js_or_def getProp_def
        split: option.splits)

lemma format_tiktok:
  "formatPostForPlatform p ''tiktok'' |` (- {''allowComment''}) =
   (computedDefaults p ''tiktok'' ++
    truthyOnly (overridesOf p ''tiktok'' |` {''privacy''}) ++
    definedOnly (overridesOf p ''tiktok'' |` {''allowDuet'', ''allowStitch''}))
     |` (- {''allowComment''})"
  by (rule ext)
     (simp add: Let_def formatPostForPlatform_def computedDefaults_def overridesOf_def
        truthyOnly_def definedOnly_def map_add_def restrict_map_def js_or_def
        js_coalesce_def getProp_def split: option.splits)

lemma format_tiktok_fields:
  "dom (formatPostForPlatform p ''tiktok'') = dom (computedDefaults p ''tiktok'')"
  by (simp add: Let_def formatPostForPlatform_def computedDefaults_def)

lemma format_tiktok_plain:
  "overridesOf p ''tiktok'' = Map.empty \<Longrightarrow>
   formatPostForPlatform p ''tiktok'' = computedDefaults p ''tiktok''"
  by (simp add: Let_def formatPostForPlatform_def computedDefaults_def overridesOf_def
        getProp_def js_or_def js_coalesce_def)

text \<open>
  Claim C8, amended. For facebook and instagram the payload is the computed defaults
  with every field of the override object merged over them, the override fields
  taking precedence. For twitter, linkedin, youtube and tiktok the payload has exactly
  the fields of the computed defaults and, \<open>allowComment\<close> of tiktok apart, each field
  has its default value unless the formatter reads an override for it: \<open>threadMode\<close>
  and \<open>threadPosts\<close> (twitter), \<open>visibility\<close> (linkedin), \<open>title\<close>, \<open>description\<close>,
  \<open>privacy\<close> and \<open>tags\<close> (youtube) and \<open>privacy\<close> (tiktok) take the override value when
  it is truthy, \<open>category\<close> (youtube) takes it whatever it is, \<open>allowDuet\<close> and
  \<open>allowStitch\<close> (tiktok) take it when it is neither undefined nor null; no other
  override field has an effect on these fields. Of \<open>allowComment\<close> of tiktok the
  statement says only that the field is there, and that it has its default when the
  post has no overrides for tiktok.
\<close>

theorem formatPostForPlatform_overrides:
  "formatPostForPlatform p ''facebook'' =
     computedDefaults p ''facebook'' ++ overridesOf p ''facebook'' \<and>
   formatPostForPlatform p ''instagram'' =
     computedDefaults p ''instagram'' ++ overridesOf p ''instagram'' \<and>
   formatPostForPlatform p ''twitter'' =
     computedDefaults p ''twitter'' ++
     truthyOnly (overridesOf p ''twitter'' |` {''threadMode'', ''threadPosts''}) \<and>
   formatPostForPlatform p ''linkedin'' =
     computedDefaults p ''linkedin'' ++
     truthyOnly (overridesOf p ''linkedin'' |` {''visibility''}) \<and>
   formatPostForPlatform p ''youtube'' =
     computedDefaults p ''youtube'' ++
     truthyOnly (overridesOf p ''youtube'' |` {''title'', ''description'', ''privacy'', ''tags''}) ++
     (overridesOf p ''youtube'' |` {''category''}) \<and>
   formatPostForPlatform p ''tiktok'' |` (- {''allowComment''}) =
     (computedDefaults p ''tiktok'' ++
      truthyOnly (overridesOf p ''tiktok'' |` {''privacy''}) ++
      definedOnly (overridesOf p ''tiktok'' |` {''allowDuet'', ''allowStitch''}))
       |` (- {''allowComment''}) \<and>
   dom (formatPostForPlatform p ''tiktok'') = dom (computedDefaults p ''tiktok'') \<and>
   (overridesOf p ''tiktok'' = Map.empty \<longrightarrow>
      formatPostForPlatform p ''tiktok'' = computedDefaults p ''tiktok'')"
  using format_facebook format_instagram format_twitter format_linkedin format_youtube
    format_tiktok format_tiktok_fields format_tiktok_plain
  by blast

theorem formatPostForPlatform_overrides_witness:
  "overridesOf overriddenTweet ''tiktok'' = Map.empty \<and>
   formatPostForPlatform overriddenTweet ''tiktok'' ''allowComment'' = Some (JBool True) \<and>
   formatPostForPlatform overriddenTweet ''twitter'' ''text'' = Some (JStr ''Test content'') \<and>
   formatPostForPlatform overriddenTweet ''twitter'' ''threadMode'' = Some (JBool True) \<and>
   formatPostForPlatform overriddenTweet ''twitter'' ''threadPosts'' = Some (JArr []) \<and>
   formatPostForPlatform overriddenTweet ''facebook'' ''message'' = Some (JStr ''Test content'')"
proof -
  have plain: "overridesOf overriddenTweet ''tiktok'' = Map.empty"
    by (simp add: overridesOf_def overriddenTweet_def)
  from formatPostForPlatform_overrides [of overriddenTweet] plain
  show ?thesis
    by (simp add: computedDefaults_def overridesOf_def truthyOnly_def overriddenTweet_def
          mockPost_def map_add_def restrict_map_def)
qed

end
